theory Spec2Isabelle
  imports Main
begin

section \<open>The exported call surface: LibXray-Bridging-Header.h\<close>

text \<open>
  The only source file of the repository is the bridging header
  \<^verbatim>\<open>PulseVPNTunnel/BridgingHeaders/LibXray-Bridging-Header.h\<close>. It holds one
  typedef and fifteen \<^verbatim>\<open>extern\<close> declarations:
  \<^verbatim>\<open>
  typedef long long GoInt;
  extern char* CGoRunXray(char* base64Text);
  extern char* CGoStopXray(void);
  extern char* CGoGetFreePorts(GoInt count);
  \<close>
  and so on. A C type is a datatype, a parameter a pair of its type and its name, and a
  declaration a record of the return type, the symbol and the parameter list. The
  parameter list \<^verbatim>\<open>(void)\<close> is the empty list, as in C.
\<close>

datatype ctype = CChar | CLongLong | CVoid | Ptr ctype | Named string

type_synonym param = "ctype \<times> string"

record decl =
  ret :: ctype
  symbol :: string
  params :: "param list"

text \<open>Line 6: \<^verbatim>\<open>typedef long long GoInt;\<close>\<close>

definition typedefs :: "(string \<times> ctype) list" where
  "typedefs = [(''GoInt'', CLongLong)]"

text \<open>A typedef name stands for the type it was declared with; an unknown name is left alone.\<close>

fun resolve :: "ctype \<Rightarrow> ctype" where
  "resolve (Named n) = (case map_of typedefs n of Some t \<Rightarrow> t | None \<Rightarrow> Named n)"
| "resolve (Ptr t) = Ptr (resolve t)"
| "resolve t = t"

text \<open>
  The integer types of the header. \<^verbatim>\<open>long long\<close> is a signed type; it has 64 bits
  on every ABI the header is compiled for (arm64 and x86_64 Apple targets), which is also
  what the name \<^verbatim>\<open>GoInt\<close> stands for on the Go side. The result is the pair
  (signed, bits), for integer types only.
\<close>

fun int_kind :: "ctype \<Rightarrow> (bool \<times> nat) option" where
  "int_kind CLongLong = Some (True, 64)"
| "int_kind t = None"

text \<open>One declaration of the shape \<^verbatim>\<open>extern char* NAME(char* base64Text);\<close>\<close>

definition text_call :: "string \<Rightarrow> decl" where
  "text_call n = \<lparr>ret = Ptr CChar, symbol = n, params = [(Ptr CChar, ''base64Text'')]\<rparr>"

text \<open>One declaration of the shape \<^verbatim>\<open>extern char* NAME(void);\<close>\<close>

definition void_call :: "string \<Rightarrow> decl" where
  "void_call n = \<lparr>ret = Ptr CChar, symbol = n, params = []\<rparr>"

text \<open>Lines 13 to 35 of the header, in the order of the file, with the header's spelling.\<close>

definition declarations :: "decl list" where
  "declarations =
    [text_call ''CGoRunXray'',
     text_call ''CGoRunXrayFromJSON'',
     void_call ''CGoStopXray'',
     void_call ''CGoXrayVersion'',
     text_call ''CGoConvertShareLinksToXrayJson'',
     text_call ''CGOConvertXrayJsonToShareLinks'',
     \<lparr>ret = Ptr CChar, symbol = ''CGoGetFreePorts'', params = [(Named ''GoInt'', ''count'')]\<rparr>,
     text_call ''CGoPing'',
     text_call ''CGoQueryStats'',
     text_call ''CGoTestXray'',
     text_call ''CGoCountGeoData'',
     text_call ''CGoReadGeoFiles'',
     text_call ''CGoBuildMphCache'',
     text_call ''CGoInitDns'',
     void_call ''CGoResetDns'']"

text \<open>The parameter types of a declaration, typedefs resolved.\<close>

definition param_types :: "decl \<Rightarrow> ctype list" where
  "param_types d = map (resolve \<circ> fst) (params d)"

text \<open>The three shapes a declaration of the header can have.\<close>

definition takes_raw_int :: "decl \<Rightarrow> bool" where
  "takes_raw_int d = (case param_types d of [t] \<Rightarrow> int_kind t = Some (True, 64) | _ \<Rightarrow> False)"

definition takes_base64_text :: "decl \<Rightarrow> bool" where
  "takes_base64_text d = (params d = [(Ptr CChar, ''base64Text'')])"

definition takes_nothing :: "decl \<Rightarrow> bool" where
  "takes_nothing d = (params d = [])"

section \<open>The geo data manager: minimal perfect hash cache\<close>

text \<open>
  The header declares \<^verbatim>\<open>CGoBuildMphCache\<close> (line 31) and nothing of its body. The
  definitions of this section are written from the design document of the component
  (sections 3, 4.4 and 7); what the document leaves open (the hash family, the content
  hash, the retry bound) is a parameter.
\<close>

text \<open>Modelled from the spec: the error taxonomy of section 7; the sources declare no error type.\<close>

datatype error_kind =
    DecodeError | AlreadyRunningError | InvalidConfigError | UnsupportedSchemeError
  | MalformedLinkError | UnsupportedOutboundError | GeoParseError | MphBuildError
  | EngineNotRunningError | InvalidDnsConfigError | TimeoutError | EngineRuntimeFault

text \<open>
  Modelled from the spec: GeoEntry and GeoDatabase of section 3, absent from the sources. An
  entry is a list of CIDR ranges or domain-match rules; a database maps list names to
  entries and is kept as an association list in load order.
\<close>

datatype geo_rule = CidrRange string | DomainRule string

type_synonym key = string
type_synonym GeoEntry = "geo_rule list"
type_synonym GeoDatabase = "(key \<times> GeoEntry) list"

text \<open>
  Modelled from the spec: MphCache of section 3, absent from the sources. The hash function
  is given by its seed; the offset table has one slot per key, and a slot holds the key
  stored there (the key check of section 4.4, item 3) with the offset of its entry in the
  entry data; the fingerprint is the content hash of the source bytes.
\<close>

type_synonym slot = "(key \<times> nat) option"

record MphCache =
  seed :: nat
  slots :: "slot list"
  entries :: "GeoEntry list"
  fingerprint :: nat

text \<open>
  Modelled from the spec: one attempt of the hash construction of section 4.4, item 1, whose
  code is absent. Every key is put into the slot its hash names; a slot that is already
  taken is a collision and ends the attempt.
\<close>

fun place :: "(key \<Rightarrow> nat) \<Rightarrow> slot list \<Rightarrow> (key \<times> nat) list \<Rightarrow> slot list option" where
  "place ix tab [] = Some tab"
| "place ix tab ((k, off) # rest) =
     (if ix k < length tab then
        (case tab ! ix k of
           None \<Rightarrow> place ix (tab[ix k := Some (k, off)]) rest
         | Some other \<Rightarrow> None)
      else None)"

text \<open>
  Modelled from the spec: the slot of a key under a seed. The hash family \<open>h\<close> (seed and
  key to a number) is not in the sources and is a parameter; the table has as many slots
  as there are keys.
\<close>

definition slot_index :: "(nat \<Rightarrow> key \<Rightarrow> nat) \<Rightarrow> nat \<Rightarrow> nat \<Rightarrow> key \<Rightarrow> nat" where
  "slot_index h s n k = h s k mod n"

text \<open>
  Modelled from the spec: the seed search of section 4.4, item 1, whose code is absent: on a
  collision the construction is tried again with a new seed, for a bounded number of
  attempts.
\<close>

fun seed_search ::
  "(nat \<Rightarrow> key \<Rightarrow> nat) \<Rightarrow> (key \<times> nat) list \<Rightarrow> nat \<Rightarrow> nat \<Rightarrow> (nat \<times> slot list) option" where
  "seed_search h items 0 s = None"
| "seed_search h items (Suc attempts) s =
     (case place (slot_index h s (length items)) (replicate (length items) None) items of
        Some tab \<Rightarrow> Some (s, tab)
      | None \<Rightarrow> seed_search h items attempts (Suc s))"

text \<open>
  Modelled from the spec: buildMphCache of section 4.4, the body of \<^verbatim>\<open>CGoBuildMphCache\<close>,
  which is absent. The first attempt uses seed 0 and at most \<open>maxRetries\<close> retries follow;
  when they are exhausted the build fails with MphBuildError. The content hash \<open>fp\<close> of
  the source bytes \<open>src\<close> and the retry bound are parameters.
\<close>

definition buildMphCache ::
  "(nat \<Rightarrow> key \<Rightarrow> nat) \<Rightarrow> (nat list \<Rightarrow> nat) \<Rightarrow> nat \<Rightarrow> nat list \<Rightarrow> GeoDatabase
     \<Rightarrow> error_kind + MphCache" where
  "buildMphCache h fp maxRetries src db =
     (case seed_search h (zip (map fst db) [0..<length db]) (Suc maxRetries) 0 of
        None \<Rightarrow> Inl MphBuildError
      | Some (s, tab) \<Rightarrow>
          Inr \<lparr>seed = s, slots = tab, entries = map snd db, fingerprint = fp src\<rparr>)"

text \<open>
  Modelled from the spec: lookup of section 4.4, item 3, whose code is absent. The key is
  hashed to one slot, and the entry is returned only when the key stored in that slot is
  the key asked for; \<open>None\<close> is "not found".
\<close>

definition lookup :: "(nat \<Rightarrow> key \<Rightarrow> nat) \<Rightarrow> MphCache \<Rightarrow> key \<Rightarrow> GeoEntry option" where
  "lookup h c k =
     (if slots c = [] then None
      else case slots c ! slot_index h (seed c) (length (slots c)) k of
             None \<Rightarrow> None
           | Some (k', off) \<Rightarrow>
               if k' = k \<and> off < length (entries c) then Some (entries c ! off) else None)"

section \<open>Properties of the call surface\<close>

lemma declarations_length: "length declarations = 15"
  by (simp add: declarations_def)

text \<open>
  Claim C10. Among the fifteen exported operations, \<^verbatim>\<open>CGoGetFreePorts\<close> is the only one
  whose argument is a raw 64-bit signed integer (\<^verbatim>\<open>GoInt count\<close>, that is
  \<^verbatim>\<open>long long\<close>); the operations without a parameter are exactly \<^verbatim>\<open>CGoStopXray\<close>,
  \<^verbatim>\<open>CGoXrayVersion\<close> and \<^verbatim>\<open>CGoResetDns\<close>; and each of the other eleven takes a single
  \<^verbatim>\<open>char*\<close> argument, the base64 text. The three groups are disjoint and cover the
  header (1 + 3 + 11 = 15).
\<close>

theorem call_surface_argument_shapes:
  "filter takes_raw_int declarations =
     [\<lparr>ret = Ptr CChar, symbol = ''CGoGetFreePorts'', params = [(Named ''GoInt'', ''count'')]\<rparr>]
   \<and> resolve (Named ''GoInt'') = CLongLong
   \<and> int_kind CLongLong = Some (True, 64)
   \<and> map symbol (filter takes_nothing declarations) =
     [''CGoStopXray'', ''CGoXrayVersion'', ''CGoResetDns'']
   \<and> map symbol (filter takes_base64_text declarations) =
     [''CGoRunXray'', ''CGoRunXrayFromJSON'', ''CGoConvertShareLinksToXrayJson'',
      ''CGOConvertXrayJsonToShareLinks'', ''CGoPing'', ''CGoQueryStats'', ''CGoTestXray'',
      ''CGoCountGeoData'', ''CGoReadGeoFiles'', ''CGoBuildMphCache'', ''CGoInitDns'']
   \<and> length (filter takes_raw_int declarations)
       + length (filter takes_nothing declarations)
       + length (filter takes_base64_text declarations) = length declarations
   \<and> length declarations = 15"
  by (simp add: declarations_def takes_raw_int_def takes_nothing_def takes_base64_text_def
      param_types_def text_call_def void_call_def typedefs_def)

section \<open>Properties of the minimal perfect hash cache\<close>

subsection \<open>What one attempt leaves in the table\<close>

lemma place_length: "place ix tab items = Some tab' \<Longrightarrow> length tab' = length tab"
  by (induction ix tab items rule: place.induct) (auto split: if_splits option.splits)

lemma place_keeps:
  "place ix tab items = Some tab' \<Longrightarrow> i < length tab \<Longrightarrow> tab ! i = Some x \<Longrightarrow> tab' ! i = Some x"
proof (induction ix tab items rule: place.induct)
  case (1 ix tab)
  then show ?case by simp
next
  case (2 ix tab k off rest)
  from "2.prems"(1) have inr: "ix k < length tab" and free: "tab ! ix k = None"
    and rec: "place ix (tab[ix k := Some (k, off)]) rest = Some tab'"
    by (auto split: if_splits option.splits)
  from free "2.prems"(3) have "i \<noteq> ix k" by auto
  with "2.prems" have "tab[ix k := Some (k, off)] ! i = Some x" by simp
  with "2.IH"[OF inr free rec] "2.prems"(2) show ?case by simp
qed

lemma place_stores:
  "place ix tab items = Some tab' \<Longrightarrow> (k, off) \<in> set items \<Longrightarrow>
     ix k < length tab \<and> tab' ! ix k = Some (k, off)"
proof (induction ix tab items rule: place.induct)
  case (1 ix tab)
  then show ?case by simp
next
  case (2 ix tab k' off' rest)
  from "2.prems"(1) have inr: "ix k' < length tab" and free: "tab ! ix k' = None"
    and rec: "place ix (tab[ix k' := Some (k', off')]) rest = Some tab'"
    by (auto split: if_splits option.splits)
  show ?case
  proof (cases "(k, off) \<in> set rest")
    case True
    with "2.IH"[OF inr free rec] show ?thesis by simp
  next
    case False
    with "2.prems"(2) have same: "k = k'" "off = off'" by auto
    have "tab[ix k' := Some (k', off')] ! ix k' = Some (k', off')"
      using inr by simp
    with place_keeps[OF rec] inr have "tab' ! ix k' = Some (k', off')" by simp
    with same inr show ?thesis by simp
  qed
qed

lemma place_origin:
  "place ix tab items = Some tab' \<Longrightarrow> i < length tab \<Longrightarrow> tab' ! i = Some (k, off) \<Longrightarrow>
     tab ! i = Some (k, off) \<or> ((k, off) \<in> set items \<and> ix k = i)"
proof (induction ix tab items rule: place.induct)
  case (1 ix tab)
  then show ?case by simp
next
  case (2 ix tab k' off' rest)
  from "2.prems"(1) have inr: "ix k' < length tab" and free: "tab ! ix k' = None"
    and rec: "place ix (tab[ix k' := Some (k', off')]) rest = Some tab'"
    by (auto split: if_splits option.splits)
  from "2.IH"[OF inr free rec] "2.prems"(2,3)
  have "tab[ix k' := Some (k', off')] ! i = Some (k, off) \<or> ((k, off) \<in> set rest \<and> ix k = i)"
    by simp
  then show ?case
  proof
    assume upd: "tab[ix k' := Some (k', off')] ! i = Some (k, off)"
    show ?thesis
    proof (cases "i = ix k'")
      case True
      with upd inr have "k = k'" "off = off'" by simp_all
      with True show ?thesis by simp
    next
      case False
      with upd show ?thesis by simp
    qed
  next
    assume "(k, off) \<in> set rest \<and> ix k = i"
    then show ?thesis by simp
  qed
qed

lemma seed_search_placed:
  "seed_search h items attempts s = Some (s', tab) \<Longrightarrow>
     place (slot_index h s' (length items)) (replicate (length items) None) items = Some tab"
  by (induction attempts arbitrary: s) (auto split: option.splits)

lemma build_placed:
  assumes "buildMphCache h fp maxRetries src db = Inr c"
  shows "place (slot_index h (seed c) (length db)) (replicate (length db) None)
           (zip (map fst db) [0..<length db]) = Some (slots c)"
    and "entries c = map snd db"
proof -
  from assms obtain s tab where
    ss: "seed_search h (zip (map fst db) [0..<length db]) (Suc maxRetries) 0 = Some (s, tab)"
    and c: "c = \<lparr>seed = s, slots = tab, entries = map snd db, fingerprint = fp src\<rparr>"
    by (auto simp: buildMphCache_def split: option.splits)
  from seed_search_placed[OF ss] c
  show "place (slot_index h (seed c) (length db)) (replicate (length db) None)
           (zip (map fst db) [0..<length db]) = Some (slots c)" by simp
  from c show "entries c = map snd db" by simp
qed

lemma item_of_member:
  assumes "(k, e) \<in> set db"
  shows "\<exists>i < length db. (k, i) \<in> set (zip (map fst db) [0..<length db]) \<and> snd (db ! i) = e"
proof -
  let ?items = "zip (map fst db) [0..<length db]"
  from assms obtain i where i: "i < length db" "db ! i = (k, e)"
    by (auto simp: in_set_conv_nth)
  have "?items ! i = (k, i)" using i by simp
  moreover have "i < length ?items" using i by simp
  ultimately have "(k, i) \<in> set ?items" by (metis nth_mem)
  with i show ?thesis by auto
qed

lemma member_of_item:
  assumes "(k, i) \<in> set (zip (map fst db) [0..<length db])"
  shows "k \<in> fst ` set db"
proof -
  from assms have "k \<in> set (map fst db)" by (rule set_zip_leftD)
  then show ?thesis by simp
qed

lemma build_slots_length:
  assumes "buildMphCache h fp maxRetries src db = Inr c"
  shows "length (slots c) = length db"
proof -
  have "length (slots c) = length (replicate (length db) (None :: slot))"
    by (rule place_length[OF build_placed(1)[OF assms]])
  then show ?thesis by simp
qed

lemma lookup_member:
  assumes built: "buildMphCache h fp maxRetries src db = Inr c"
    and mem: "(k, e) \<in> set db"
  shows "lookup h c k = Some e"
proof -
  note pl = build_placed(1)[OF built] and en = build_placed(2)[OF built]
    and len = build_slots_length[OF built]
  from item_of_member[OF mem] obtain i where i: "i < length db"
    "(k, i) \<in> set (zip (map fst db) [0..<length db])" "snd (db ! i) = e"
    by blast
  have stored: "slots c ! slot_index h (seed c) (length db) k = Some (k, i)"
    using place_stores[OF pl i(2)] by (rule conjunct2)
  have ne: "slots c \<noteq> []" using i(1) len by auto
  have "entries c ! i = e" using en i(1,3) by simp
  moreover have "i < length (entries c)" using en i(1) by simp
  ultimately show ?thesis
    using stored ne len by (simp add: lookup_def)
qed

lemma lookup_stranger:
  assumes built: "buildMphCache h fp maxRetries src db = Inr c"
    and nk: "k \<notin> fst ` set db"
  shows "lookup h c k = None"
proof (cases "slots c = []")
  case True
  then show ?thesis by (simp add: lookup_def)
next
  case False
  note pl = build_placed(1)[OF built] and len = build_slots_length[OF built]
  from False len have pos: "0 < length db" by auto
  define i where "i = slot_index h (seed c) (length db) k"
  have ir: "i < length (replicate (length db) (None :: slot))"
    using pos by (simp add: i_def slot_index_def)
  show ?thesis
  proof (cases "slots c ! i")
    case None
    with False len show ?thesis by (simp add: lookup_def i_def)
  next
    case (Some p)
    obtain k' off where p: "p = (k', off)" by (cases p)
    from Some p have at: "slots c ! i = Some (k', off)" by simp
    from place_origin[OF pl ir at] pos ir
    have "(k', off) \<in> set (zip (map fst db) [0..<length db])" by simp
    then have "k' \<in> fst ` set db" by (rule member_of_item)
    with nk have "k' \<noteq> k" by auto
    with at False len show ?thesis by (simp add: lookup_def i_def)
  qed
qed

text \<open>
  Claim C3. In a cache that was built from a database, looking up a key of the database
  returns the entry stored with that key, and looking up any other key returns "not
  found": the slot the key hashes to is used only when the key stored in it is the key
  asked for, so an entry that lookup returns is never the entry of another key. This
  holds for every hash family, content hash and retry bound.
\<close>

theorem lookup_correct:
  assumes built: "buildMphCache h fp maxRetries src db = Inr c"
  shows "((k, e) \<in> set db \<longrightarrow> lookup h c k = Some e)
       \<and> (k \<notin> fst ` set db \<longrightarrow> lookup h c k = None)
       \<and> (lookup h c k = Some e \<longrightarrow> (k, e) \<in> set db)"
proof (intro conjI impI)
  assume "(k, e) \<in> set db"
  then show "lookup h c k = Some e" by (rule lookup_member[OF built])
next
  assume "k \<notin> fst ` set db"
  then show "lookup h c k = None" by (rule lookup_stranger[OF built])
next
  assume found: "lookup h c k = Some e"
  show "(k, e) \<in> set db"
  proof (cases "k \<in> fst ` set db")
    case True
    then obtain e' where mem: "(k, e') \<in> set db" by auto
    from lookup_member[OF built mem] found have "e' = e" by simp
    with mem show ?thesis by simp
  next
    case False
    from lookup_stranger[OF built False] found show ?thesis by simp
  qed
qed

text \<open>
  The theorem at a database of three lists, with a hash family under which seeds 0 and 1
  collide (\<^verbatim>\<open>US\<close> and \<^verbatim>\<open>DE\<close> under seed 0, \<^verbatim>\<open>CN\<close> and \<^verbatim>\<open>DE\<close> under seed 1) and
  seed 2 does not.
\<close>

theorem lookup_correct_witness:
  "buildMphCache (\<lambda>s k. fold (\<lambda>ch a. a * (s + 2) + of_char ch) k 0) sum_list 3 [1, 2, 3]
       [(''DE'', [DomainRule ''example.de'']), (''US'', [CidrRange ''3.0.0.0/8'']),
        (''CN'', [CidrRange ''1.0.1.0/24''])]
     = Inr \<lparr>seed = 2, slots = [Some (''US'', 1), Some (''CN'', 2), Some (''DE'', 0)],
            entries = [[DomainRule ''example.de''], [CidrRange ''3.0.0.0/8''],
                       [CidrRange ''1.0.1.0/24'']],
            fingerprint = 6\<rparr>
   \<and> lookup (\<lambda>s k. fold (\<lambda>ch a. a * (s + 2) + of_char ch) k 0)
        \<lparr>seed = 2, slots = [Some (''US'', 1), Some (''CN'', 2), Some (''DE'', 0)],
            entries = [[DomainRule ''example.de''], [CidrRange ''3.0.0.0/8''],
                       [CidrRange ''1.0.1.0/24'']],
            fingerprint = 6\<rparr> ''CN'' = Some [CidrRange ''1.0.1.0/24'']
   \<and> lookup (\<lambda>s k. fold (\<lambda>ch a. a * (s + 2) + of_char ch) k 0)
        \<lparr>seed = 2, slots = [Some (''US'', 1), Some (''CN'', 2), Some (''DE'', 0)],
            entries = [[DomainRule ''example.de''], [CidrRange ''3.0.0.0/8''],
                       [CidrRange ''1.0.1.0/24'']],
            fingerprint = 6\<rparr> ''FR'' = None"
proof -
  let ?h = "\<lambda>s k. fold (\<lambda>ch a. a * (s + 2) + of_char ch) k (0::nat)"
  let ?db = "[(''DE'', [DomainRule ''example.de'']), (''US'', [CidrRange ''3.0.0.0/8'']),
        (''CN'', [CidrRange ''1.0.1.0/24''])]"
  let ?c = "\<lparr>seed = 2, slots = [Some (''US'', 1), Some (''CN'', 2), Some (''DE'', 0)],
            entries = [[DomainRule ''example.de''], [CidrRange ''3.0.0.0/8''],
                       [CidrRange ''1.0.1.0/24'']],
            fingerprint = 6\<rparr>"
  have b: "buildMphCache ?h sum_list 3 [1, 2, 3] ?db = Inr ?c"
    by code_simp
  have "lookup ?h ?c ''CN'' = Some [CidrRange ''1.0.1.0/24'']"
    using lookup_correct[OF b, of "''CN''" "[CidrRange ''1.0.1.0/24'']"] by simp
  moreover have "lookup ?h ?c ''FR'' = None"
    using lookup_correct[OF b, of "''FR''"] by simp
  ultimately show ?thesis using b by simp
qed

end
